theory Spec2Isabelle
  imports Main
begin

section \<open>Data model of the template processor\<close>

text \<open>
  Strings are lists of characters, one per JavaScript code unit. The value handed to
  \<open>StringContainer.replaceRange\<close> is either a string or \<open>undefined\<close> (the result of
  \<open>retrieveValueFromIterDec\<close> when no Declared Iteration matches).
\<close>

datatype jsval = JSUndefined | JSString string

text \<open>
  Every \<open>throw new Error(...)\<close> of \<open>template.processor.ts\<close>, by its message:
  \<open>TmplInvalid\<close> is \<open>TemplateContainer.msgTmplInvalid\<close> (configuration error),
  \<open>EmptyMap\<close> is "Invalid Values Map: map is empty" (input error),
  \<open>NoTemplateParameters\<close> is "Invalid Processor state: found Parameterized Expression,
  but no template parameters are set" (state error), \<open>InvalidExpression s\<close> is
  "Invalid expression 's' found trying to evaluate a boolean" (input error), and
  \<open>FunctionNotFound n\<close> is the lookup error of the two function processors.
\<close>

datatype error =
    TmplInvalid
  | EmptyMap
  | NoTemplateParameters
  | InvalidExpression string
  | FunctionNotFound string

text \<open>
  The two \<open>console.warn\<close> calls of \<open>run\<close>, by the variable parts of their message: the
  key (or parameter name) and the template's file name.
\<close>

datatype warning =
    ExpectedParameter string string
  | ExpectedKey string string

record mapped_expression =
  mappedKey :: string
  isOptional :: bool
  isNegated :: bool
  isTernary :: bool
  ternaryTrue :: string
  ternaryFalse :: "string option"
  pipeFunctions :: "string list"
  isIterated :: bool
  isParameterized :: bool
  startIndex :: nat
  endIndex :: nat

record declared_iteration =
  iterMappedKey :: string
  mappedFunction :: string

record template_container =
  fileContents :: string
  mapExprList :: "mapped_expression list"
  iterDecList :: "declared_iteration list"
  filename :: string
  invalid :: bool
  skip :: bool
  optionalityByDefault :: bool

text \<open>
  A \<open>Map<string, string>\<close> is an association list read with \<open>map_of\<close>; its \<open>size\<close> is
  the number of distinct keys.
\<close>

type_synonym data_map = "(string \<times> string) list"

definition map_size :: "data_map \<Rightarrow> nat" where
  "map_size m = length (remdups (map fst m))"

subsection \<open>Collaborators that are not part of the processor's file\<close>

text \<open>
  Modelled from the spec: \<open>PipeFunctionsProcessor\<close> is not among the sources. Section 4.5:
  a function name resolves to a unary string transform, caller-supplied registrations
  preferred over the built-in set, with a lookup error naming the unresolved function;
  a chain applies the named transforms in declared order, each to the previous output.
\<close>

record pipe_functions_processor =
  customPipeFunctions :: "(string \<times> (string \<Rightarrow> string)) list"
  builtinPipeFunctions :: "(string \<times> (string \<Rightarrow> string)) list"

definition resolvePipeFunction ::
  "pipe_functions_processor \<Rightarrow> string \<Rightarrow> error + (string \<Rightarrow> string)" where
  "resolvePipeFunction P name =
     (case map_of (customPipeFunctions P) name of
        Some f \<Rightarrow> Inr f
      | None \<Rightarrow>
          (case map_of (builtinPipeFunctions P) name of
             Some f \<Rightarrow> Inr f
           | None \<Rightarrow> Inl (FunctionNotFound name)))"

fun PipeFunctionsProcessor_invoke ::
  "pipe_functions_processor \<Rightarrow> string list \<Rightarrow> string \<Rightarrow> error + string" where
  "PipeFunctionsProcessor_invoke P [] v = Inr v"
| "PipeFunctionsProcessor_invoke P (name # names) v =
     (case resolvePipeFunction P name of
        Inl e \<Rightarrow> Inl e
      | Inr f \<Rightarrow> PipeFunctionsProcessor_invoke P names (f v))"

text \<open>
  Modelled from the spec: \<open>TemplateFunctionsProcessor\<close> is not among the sources.
  Section 4.5: a function name resolves to a nullary string producer (here the string it
  produces), caller-supplied registrations first, with a lookup error otherwise.
\<close>

record template_functions_processor =
  customTmplFunctions :: "(string \<times> string) list"
  builtinTmplFunctions :: "(string \<times> string) list"

definition TemplateFunctionsProcessor_invoke ::
  "template_functions_processor \<Rightarrow> string \<Rightarrow> error + string" where
  "TemplateFunctionsProcessor_invoke T name =
     (case map_of (customTmplFunctions T) name of
        Some s \<Rightarrow> Inr s
      | None \<Rightarrow>
          (case map_of (builtinTmplFunctions T) name of
             Some s \<Rightarrow> Inr s
           | None \<Rightarrow> Inl (FunctionNotFound name)))"

text \<open>
  Modelled from the spec: \<open>StringContainer\<close> comes from the package
  \<open>@artifacter/common\<close>. \<open>replaceRange start end value\<close> rewrites the half-open range
  \<open>[start, end)\<close> of the working text: \<open>substring(0, start) + value + substring(end)\<close>,
  where string concatenation renders \<open>undefined\<close> as the text "undefined".
\<close>

fun js_string_of :: "jsval \<Rightarrow> string" where
  "js_string_of JSUndefined = ''undefined''"
| "js_string_of (JSString s) = s"

definition replaceRange :: "nat \<Rightarrow> nat \<Rightarrow> jsval \<Rightarrow> string \<Rightarrow> string" where
  "replaceRange start end' v w = take start w @ js_string_of v @ drop end' w"

text \<open>
  The two regular expressions \<open>MappedExpression.regex\<close> and \<open>DeclaredIteration.regex\<close>
  are declared in files that are not among the sources; they are parameters.
  \<open>stripDeclaredIterations\<close> is \<open>s.replace(DeclaredIteration.regex, "")\<close>;
  \<open>execMappedExpression\<close> is \<open>MappedExpression.regex.exec(s)\<close> followed by
  \<open>new MappedExpression(result)\<close>: \<open>None\<close> when nothing matches (\<open>lastIndex\<close> is then
  0), otherwise the value of \<open>lastIndex\<close> after the match and the record built from it.
\<close>

record grammar =
  stripDeclaredIterations :: "string \<Rightarrow> string"
  execMappedExpression :: "string \<Rightarrow> (nat \<times> mapped_expression) option"

subsection \<open>The processor\<close>

text \<open>
  The parameter set is typed \<open>any\<close> and read with \<open>templateParameters[key]\<close>, a property
  access: it finds the object's own properties first and then the members inherited
  through the prototype chain (for an object literal those of \<open>Object.prototype\<close>:
  \<open>toString\<close>, \<open>constructor\<close>, \<open>valueOf\<close> and the others). A value is the text that
  string concatenation renders for it, or \<open>None\<close> when it is \<open>null\<close> or \<open>undefined\<close>,
  which the test \<open>== null\<close> treats alike; an own property with such a value hides an
  inherited member of the same name.
\<close>

record js_object =
  ownProperties :: "(string \<times> string option) list"
  inheritedProperties :: "(string \<times> string option) list"

definition getProperty :: "js_object \<Rightarrow> string \<Rightarrow> string option" where
  "getProperty obj k =
     (case map_of (ownProperties obj) k of
        Some v \<Rightarrow> v
      | None \<Rightarrow>
          (case map_of (inheritedProperties obj) k of
             Some v \<Rightarrow> v
           | None \<Rightarrow> None))"

text \<open>
  The fields of class \<open>TemplateProcessor\<close>. \<open>templateParameters\<close> is \<open>None\<close> while it is
  \<open>undefined\<close> or \<open>null\<close>.
\<close>

record processor =
  atmplContainer :: template_container
  templateParameters :: "js_object option"
  pipeFunctionsProcessor :: pipe_functions_processor
  tmplFunctionsProcessor :: template_functions_processor

definition setTemplateParameters :: "js_object option \<Rightarrow> processor \<Rightarrow> processor" where
  "setTemplateParameters tp p = p\<lparr>templateParameters := tp\<rparr>"

text \<open>
  \<open>retrieveValueFromIterDec\<close>: the \<open>forEach\<close> visits every Declared Iteration (the
  \<open>return\<close> only leaves the callback), so every record with the key invokes its function
  and the last one decides the result; with no such record the result stays \<open>undefined\<close>.
\<close>

fun iterDecList_forEach ::
  "template_functions_processor \<Rightarrow> string \<Rightarrow> declared_iteration list \<Rightarrow> jsval \<Rightarrow> error + jsval" where
  "iterDecList_forEach T k [] result = Inr result"
| "iterDecList_forEach T k (iterDec # rest) result =
     (if iterMappedKey iterDec = k then
        (case TemplateFunctionsProcessor_invoke T (mappedFunction iterDec) of
           Inl e \<Rightarrow> Inl e
         | Inr s \<Rightarrow> iterDecList_forEach T k rest (JSString s))
      else iterDecList_forEach T k rest result)"

definition retrieveValueFromIterDec :: "processor \<Rightarrow> string \<Rightarrow> error + jsval" where
  "retrieveValueFromIterDec p k =
     iterDecList_forEach (tmplFunctionsProcessor p) k (iterDecList (atmplContainer p)) JSUndefined"

text \<open>
  The body of the \<open>for\<close> loop of \<open>run\<close> for one Expression Record: from the working text
  and the warnings logged so far to the log and either the error thrown or the new working
  text. In the plain branch the two tests on \<open>mappedValue == undefined\<close> are the \<open>None\<close>
  case, the final \<open>else\<close> the \<open>Some\<close> case. An undefined or empty \<open>pipeFunctions\<close> is the
  empty list.
\<close>

definition run_body ::
  "processor \<Rightarrow> data_map \<Rightarrow> mapped_expression \<Rightarrow> string \<Rightarrow> warning list
     \<Rightarrow> warning list \<times> (error + string)" where
  "run_body p m mapExpr workingResult log =
     (if isIterated mapExpr then
        (case retrieveValueFromIterDec p (mappedKey mapExpr) of
           Inl e \<Rightarrow> (log, Inl e)
         | Inr v \<Rightarrow>
             (log, Inr (replaceRange (startIndex mapExpr) (endIndex mapExpr) v workingResult)))
      else if isParameterized mapExpr then
        (case templateParameters p of
           None \<Rightarrow> (log, Inl NoTemplateParameters)
         | Some tp \<Rightarrow>
             (case getProperty tp (mappedKey mapExpr) of
                None \<Rightarrow>
                  (log @ [ExpectedParameter (mappedKey mapExpr) (filename (atmplContainer p))],
                   Inr workingResult)
              | Some v \<Rightarrow>
                  (log, Inr (replaceRange (startIndex mapExpr) (endIndex mapExpr)
                               (JSString v) workingResult))))
      else
        (case map_of m (mappedKey mapExpr) of
           None \<Rightarrow>
             (if \<not> isOptional mapExpr \<and> \<not> optionalityByDefault (atmplContainer p) then
                (log @ [ExpectedKey (mappedKey mapExpr) (filename (atmplContainer p))],
                 Inr workingResult)
              else
                (log, Inr (replaceRange (startIndex mapExpr) (endIndex mapExpr)
                             (JSString '''') workingResult)))
         | Some mappedValue \<Rightarrow>
             (let mappedValue1 =
                    (if isTernary mapExpr then
                       (if mappedValue \<noteq> '''' then ternaryTrue mapExpr
                        else (case ternaryFalse mapExpr of
                                Some f \<Rightarrow> (if f \<noteq> '''' then f else '''')
                              | None \<Rightarrow> ''''))
                     else mappedValue)
              in
                (case (if pipeFunctions mapExpr \<noteq> [] then
                         PipeFunctionsProcessor_invoke (pipeFunctionsProcessor p)
                           (pipeFunctions mapExpr) mappedValue1
                       else Inr mappedValue1) of
                   Inl e \<Rightarrow> (log, Inl e)
                 | Inr mappedValue2 \<Rightarrow>
                     (log, Inr (replaceRange (startIndex mapExpr) (endIndex mapExpr)
                                  (JSString mappedValue2) workingResult))))))"

text \<open>
  The loop \<open>for (index = length - 1; index > -1; index--)\<close>: the counter is
  \<open>index + 1\<close>, so that \<open>run_loop p m (Suc index)\<close> handles record \<open>index\<close> and goes on
  with \<open>index - 1\<close>. A throw leaves the loop with the warnings logged so far.
\<close>

fun run_loop ::
  "processor \<Rightarrow> data_map \<Rightarrow> nat \<Rightarrow> string \<Rightarrow> warning list \<Rightarrow> warning list \<times> (error + string)" where
  "run_loop p m 0 workingResult log = (log, Inr workingResult)"
| "run_loop p m (Suc index) workingResult log =
     (case run_body p m (mapExprList (atmplContainer p) ! index) workingResult log of
        (log', Inl e) \<Rightarrow> (log', Inl e)
      | (log', Inr workingResult') \<Rightarrow> run_loop p m index workingResult' log')"

text \<open>
  What a call of \<open>run\<close> leaves behind: the warnings printed, the string returned or the
  error thrown, and the processor afterwards. \<open>run\<close> copies \<open>fileContents\<close> into a local
  \<open>StringContainer\<close> and assigns to no field of the processor or of its container.
\<close>

record run_result =
  warnings :: "warning list"
  returned :: "error + string"
  processorAfter :: processor

definition run :: "grammar \<Rightarrow> processor \<Rightarrow> data_map \<Rightarrow> run_result" where
  "run g p m =
     (if skip (atmplContainer p) then
        \<lparr>warnings = [], returned = Inr (fileContents (atmplContainer p)), processorAfter = p\<rparr>
      else if invalid (atmplContainer p) then
        \<lparr>warnings = [], returned = Inl TmplInvalid, processorAfter = p\<rparr>
      else if map_size m = 0 then
        \<lparr>warnings = [], returned = Inl EmptyMap, processorAfter = p\<rparr>
      else
        (case run_loop p m (length (mapExprList (atmplContainer p)))
                (fileContents (atmplContainer p)) [] of
           (log, Inl e) \<Rightarrow> \<lparr>warnings = log, returned = Inl e, processorAfter = p\<rparr>
         | (log, Inr workingResult) \<Rightarrow>
             \<lparr>warnings = log,
              returned = Inr (stripDeclaredIterations g workingResult),
              processorAfter = p\<rparr>))"

subsection \<open>Boolean evaluation\<close>

text \<open>
  \<open>toLowerCase\<close> on the letters A to Z; no other character lower-cases to a character of
  "true" or "1", so the comparisons of \<open>evaluateBoolean\<close> are exact.
\<close>

definition toLowerChar :: "char \<Rightarrow> char" where
  "toLowerChar c =
     (case map_of (zip ''ABCDEFGHIJKLMNOPQRSTUVWXYZ'' ''abcdefghijklmnopqrstuvwxyz'') c of
        Some l \<Rightarrow> l
      | None \<Rightarrow> c)"

definition toLowerCase :: "string \<Rightarrow> string" where
  "toLowerCase s = map toLowerChar s"

definition evaluateBoolean :: "grammar \<Rightarrow> string \<Rightarrow> data_map \<Rightarrow> error + bool" where
  "evaluateBoolean g expression m =
     (case execMappedExpression g expression of
        None \<Rightarrow> Inl (InvalidExpression expression)
      | Some (lastIndex, expr) \<Rightarrow>
          (if lastIndex = 0 then Inl (InvalidExpression expression)
           else
             (case map_of m (mappedKey expr) of
                None \<Rightarrow> Inr False
              | Some v \<Rightarrow>
                  (if v \<noteq> '''' then
                     Inr (if isNegated expr
                          then \<not> (toLowerCase v = ''true'' \<or> toLowerCase v = ''1'')
                          else (toLowerCase v = ''true'' \<or> toLowerCase v = ''1''))
                   else Inr False))))"

section \<open>Notions used to state the properties\<close>

subsection \<open>The loop over the records in the order visited\<close>

text \<open>
  \<open>run_walk\<close> is the loop of \<open>run\<close> over the list of records it visits, in visiting
  order; \<open>run_loop\<close> from \<open>n\<close> visits the first \<open>n\<close> records of \<open>mapExprList\<close> last to
  first (lemma \<open>run_loop_walk\<close>).
\<close>

fun run_walk ::
  "processor \<Rightarrow> data_map \<Rightarrow> mapped_expression list \<Rightarrow> string \<Rightarrow> warning list
     \<Rightarrow> warning list \<times> (error + string)" where
  "run_walk p m [] w log = (log, Inr w)"
| "run_walk p m (e # es) w log =
     (case run_body p m e w log of
        (log', Inl err) \<Rightarrow> (log', Inl err)
      | (log', Inr w') \<Rightarrow> run_walk p m es w' log')"

subsection \<open>The resolution policy and the one-pass splice, in the words of the specification\<close>

text \<open>
  Section 4.3, step 5, for a present value: the ternary choice, then the pipe chain in
  declared order, each transform applied to the previous output.
\<close>

definition ternaryChoice :: "mapped_expression \<Rightarrow> string \<Rightarrow> string" where
  "ternaryChoice e v =
     (if isTernary e then
        (if v \<noteq> '''' then ternaryTrue e
         else (case ternaryFalse e of None \<Rightarrow> '''' | Some f \<Rightarrow> f))
      else v)"

definition applyInOrder :: "(string \<Rightarrow> string) list \<Rightarrow> string \<Rightarrow> string" where
  "applyInOrder fs v = fold (\<lambda>f x. f x) fs v"

text \<open>
  The replacement a record resolves to, computed from the processor and the map alone,
  never from the working text: an error, \<open>None\<close> when the range is left as it is, or the
  value written into the range. Lemma \<open>run_body_replacement\<close> relates it to the loop body.
\<close>

definition replacementOf ::
  "processor \<Rightarrow> data_map \<Rightarrow> mapped_expression \<Rightarrow> error + jsval option" where
  "replacementOf p m e =
     (if isIterated e then
        (case retrieveValueFromIterDec p (mappedKey e) of
           Inl err \<Rightarrow> Inl err
         | Inr v \<Rightarrow> Inr (Some v))
      else if isParameterized e then
        (case templateParameters p of
           None \<Rightarrow> Inl NoTemplateParameters
         | Some tp \<Rightarrow>
             (case getProperty tp (mappedKey e) of
                None \<Rightarrow> Inr None
              | Some v \<Rightarrow> Inr (Some (JSString v))))
      else
        (case map_of m (mappedKey e) of
           None \<Rightarrow>
             (if isOptional e \<or> optionalityByDefault (atmplContainer p)
              then Inr (Some (JSString '''')) else Inr None)
         | Some v \<Rightarrow>
             (case PipeFunctionsProcessor_invoke (pipeFunctionsProcessor p)
                     (pipeFunctions e) (ternaryChoice e v) of
                Inl err \<Rightarrow> Inl err
              | Inr s \<Rightarrow> Inr (Some (JSString s)))))"

text \<open>
  All replacements of a record list, each with its range; the records are resolved last to
  first, so that the first error met is the one \<open>run\<close> meets.
\<close>

fun replacements ::
  "processor \<Rightarrow> data_map \<Rightarrow> mapped_expression list
     \<Rightarrow> error + (nat \<times> nat \<times> jsval option) list" where
  "replacements p m [] = Inr []"
| "replacements p m (e # es) =
     (case replacements p m es of
        Inl err \<Rightarrow> Inl err
      | Inr rs \<Rightarrow>
          (case replacementOf p m e of
             Inl err \<Rightarrow> Inl err
           | Inr r \<Rightarrow> Inr ((startIndex e, endIndex e, r) # rs)))"

text \<open>
  Splicing in one pass over the original text, left to right: from position \<open>pos\<close>, copy
  the original up to the next range, put the replacement (or the range's own text when
  there is none), and go on from the end of the range.
\<close>

fun spliceFrom :: "nat \<Rightarrow> string \<Rightarrow> (nat \<times> nat \<times> jsval option) list \<Rightarrow> string" where
  "spliceFrom pos original [] = drop pos original"
| "spliceFrom pos original ((start, end', r) # rest) =
     take (start - pos) (drop pos original)
     @ (case r of
          None \<Rightarrow> take (end' - start) (drop start original)
        | Some v \<Rightarrow> js_string_of v)
     @ spliceFrom end' original rest"

definition spliceAll :: "string \<Rightarrow> (nat \<times> nat \<times> jsval option) list \<Rightarrow> string" where
  "spliceAll original edits = spliceFrom 0 original edits"

text \<open>
  The invariant of the record list: ascending start offsets, and half-open ranges that are
  non-empty, lie within the original text and do not overlap pairwise.
\<close>

definition ascendingByStart :: "mapped_expression list \<Rightarrow> bool" where
  "ascendingByStart xs = sorted_wrt (\<lambda>a b. startIndex a \<le> startIndex b) xs"

fun nonOverlapping :: "mapped_expression list \<Rightarrow> bool" where
  "nonOverlapping [] = True"
| "nonOverlapping (a # xs) =
     (list_all (\<lambda>b. endIndex a \<le> startIndex b \<or> endIndex b \<le> startIndex a) xs
      \<and> nonOverlapping xs)"

definition rangesWithin :: "nat \<Rightarrow> mapped_expression list \<Rightarrow> bool" where
  "rangesWithin n xs = list_all (\<lambda>a. startIndex a < endIndex a \<and> endIndex a \<le> n) xs"

fun rangesChain :: "nat \<Rightarrow> mapped_expression list \<Rightarrow> nat \<Rightarrow> bool" where
  "rangesChain pos [] n = True"
| "rangesChain pos (a # xs) n =
     (pos \<le> startIndex a \<and> startIndex a \<le> endIndex a \<and> endIndex a \<le> n
      \<and> rangesChain (endIndex a) xs n)"

text \<open>
  Every function a record refers to is registered: the template function of each Declared
  Iteration with the record's key, or each name of its pipe chain.
\<close>

definition functionsResolve :: "processor \<Rightarrow> mapped_expression \<Rightarrow> bool" where
  "functionsResolve p e =
     (if isIterated e then
        list_all (\<lambda>d. iterMappedKey d \<noteq> mappedKey e
                    \<or> \<not> isl (TemplateFunctionsProcessor_invoke (tmplFunctionsProcessor p)
                               (mappedFunction d)))
          (iterDecList (atmplContainer p))
      else if isParameterized e then True
      else list_all (\<lambda>n. \<not> isl (resolvePipeFunction (pipeFunctionsProcessor p) n))
             (pipeFunctions e))"

text \<open>
  Section 4.4 in its own words: true iff the value at the key is "true" or "1" whatever
  the case, inverted by the negation flag; false when the key is absent.
\<close>

definition claimedBoolean :: "mapped_expression \<Rightarrow> data_map \<Rightarrow> bool" where
  "claimedBoolean e m =
     (case map_of m (mappedKey e) of
        None \<Rightarrow> False
      | Some v \<Rightarrow>
          (if isNegated e then \<not> (toLowerCase v = ''true'' \<or> toLowerCase v = ''1'')
           else (toLowerCase v = ''true'' \<or> toLowerCase v = ''1'')))"

subsection \<open>Concrete inputs\<close>

text \<open>
  A plain, non-optional record for a key and a range; the greeting template of section 8
  with its two records; a template with one record and one Declared Iteration for another
  key; the custom functions of the repository's test driver (\<open>doSomething\<close> appends
  "ASDF!!!", \<open>doOther\<close> produces "LALALA"). In \<open>exampleGrammar\<close> the declared-iteration
  pattern matches nowhere in these texts, and the expression pattern reads \<open>flag\<close> and its
  negated form \<open>!flag\<close>.
\<close>

definition exampleExpr :: "string \<Rightarrow> nat \<Rightarrow> nat \<Rightarrow> mapped_expression" where
  "exampleExpr k s e =
     \<lparr>mappedKey = k, isOptional = False, isNegated = False, isTernary = False,
      ternaryTrue = '''', ternaryFalse = None, pipeFunctions = [], isIterated = False,
      isParameterized = False, startIndex = s, endIndex = e\<rparr>"

definition exampleContainer :: template_container where
  "exampleContainer =
     \<lparr>fileContents = ''Hello ::name::, you are ::age::!'',
      mapExprList = [exampleExpr ''name'' 6 14, exampleExpr ''age'' 24 31],
      iterDecList = [], filename = ''greeting.atmpl'', invalid = False, skip = False,
      optionalityByDefault = False\<rparr>"

definition exampleProcessor :: processor where
  "exampleProcessor =
     \<lparr>atmplContainer = exampleContainer, templateParameters = None,
      pipeFunctionsProcessor =
        \<lparr>customPipeFunctions = [(''doSomething'', \<lambda>str. str @ ''ASDF!!!'')],
         builtinPipeFunctions = [(''twice'', \<lambda>str. str @ str)]\<rparr>,
      tmplFunctionsProcessor =
        \<lparr>customTmplFunctions = [(''doOther'', ''LALALA'')], builtinTmplFunctions = []\<rparr>\<rparr>"

definition exampleGrammar :: grammar where
  "exampleGrammar =
     \<lparr>stripDeclaredIterations = (\<lambda>s. s),
      execMappedExpression =
        (\<lambda>s. if s = ''flag'' then Some (4, exampleExpr ''flag'' 0 4)
             else if s = ''!flag'' then Some (5, (exampleExpr ''flag'' 0 5)\<lparr>isNegated := True\<rparr>)
             else None)\<rparr>"

definition singleContainer :: "mapped_expression \<Rightarrow> template_container" where
  "singleContainer e =
     \<lparr>fileContents = ''You are ::age::!'', mapExprList = [e],
      iterDecList = [\<lparr>iterMappedKey = ''items'', mappedFunction = ''doOther''\<rparr>],
      filename = ''age.atmpl'', invalid = False, skip = False,
      optionalityByDefault = False\<rparr>"

text \<open>
  An object literal with the given own properties: what it inherits are the members of
  \<open>Object.prototype\<close>, each with the text that concatenation renders for it.
\<close>

definition objectPrototype :: "(string \<times> string option) list" where
  "objectPrototype =
     [(''constructor'', Some ''function Object() { [native code] }''),
      (''__defineGetter__'', Some ''function __defineGetter__() { [native code] }''),
      (''__defineSetter__'', Some ''function __defineSetter__() { [native code] }''),
      (''hasOwnProperty'', Some ''function hasOwnProperty() { [native code] }''),
      (''__lookupGetter__'', Some ''function __lookupGetter__() { [native code] }''),
      (''__lookupSetter__'', Some ''function __lookupSetter__() { [native code] }''),
      (''isPrototypeOf'', Some ''function isPrototypeOf() { [native code] }''),
      (''propertyIsEnumerable'', Some ''function propertyIsEnumerable() { [native code] }''),
      (''toString'', Some ''function toString() { [native code] }''),
      (''valueOf'', Some ''function valueOf() { [native code] }''),
      (''__proto__'', Some ''[object Object]''),
      (''toLocaleString'', Some ''function toLocaleString() { [native code] }'')]"

definition objectLiteral :: "(string \<times> string option) list \<Rightarrow> js_object" where
  "objectLiteral own = \<lparr>ownProperties = own, inheritedProperties = objectPrototype\<rparr>"

definition singleProcessor :: "mapped_expression \<Rightarrow> js_object option \<Rightarrow> processor" where
  "singleProcessor e tp =
     exampleProcessor\<lparr>atmplContainer := singleContainer e, templateParameters := tp\<rparr>"

definition guardedProcessor :: "bool \<Rightarrow> bool \<Rightarrow> processor" where
  "guardedProcessor sk iv =
     exampleProcessor\<lparr>atmplContainer := exampleContainer\<lparr>invalid := iv, skip := sk\<rparr>\<rparr>"

lemmas example_defs =
  exampleExpr_def exampleContainer_def exampleProcessor_def exampleGrammar_def
  singleContainer_def singleProcessor_def guardedProcessor_def
  objectLiteral_def objectPrototype_def

section \<open>The loop of run\<close>

lemma run_loop_walk:
  "n \<le> length (mapExprList (atmplContainer p)) \<Longrightarrow>
   run_loop p m n w log = run_walk p m (rev (take n (mapExprList (atmplContainer p)))) w log"
proof (induction n arbitrary: w log)
  case 0
  then show ?case by simp
next
  case (Suc n)
  then have lt: "n < length (mapExprList (atmplContainer p))" by simp
  have "rev (take (Suc n) (mapExprList (atmplContainer p)))
        = mapExprList (atmplContainer p) ! n # rev (take n (mapExprList (atmplContainer p)))"
    using lt by (simp add: take_Suc_conv_app_nth)
  with Suc show ?case
    by (simp split: prod.splits sum.splits)
qed

lemma run_walk_append:
  "run_walk p m (as @ bs) w log =
     (case run_walk p m as w log of
        (log', Inl err) \<Rightarrow> (log', Inl err)
      | (log', Inr w') \<Rightarrow> run_walk p m bs w' log')"
  by (induction as arbitrary: w log) (auto split: prod.splits sum.splits)

lemma run_walk_single: "run_walk p m [e] w log = run_body p m e w log"
  by (simp split: prod.splits sum.splits)

lemma run_unfold:
  "\<not> skip (atmplContainer p) \<Longrightarrow> \<not> invalid (atmplContainer p) \<Longrightarrow> map_size m \<noteq> 0 \<Longrightarrow>
   run g p m =
     (case run_walk p m (rev (mapExprList (atmplContainer p))) (fileContents (atmplContainer p)) [] of
        (log, Inl e) \<Rightarrow> \<lparr>warnings = log, returned = Inl e, processorAfter = p\<rparr>
      | (log, Inr w) \<Rightarrow>
          \<lparr>warnings = log, returned = Inr (stripDeclaredIterations g w), processorAfter = p\<rparr>)"
  by (simp add: run_def run_loop_walk)

lemma run_single:
  "\<not> skip (atmplContainer p) \<Longrightarrow> \<not> invalid (atmplContainer p) \<Longrightarrow> map_size m \<noteq> 0 \<Longrightarrow>
   mapExprList (atmplContainer p) = [e] \<Longrightarrow>
   run g p m =
     (case run_body p m e (fileContents (atmplContainer p)) [] of
        (log, Inl e) \<Rightarrow> \<lparr>warnings = log, returned = Inl e, processorAfter = p\<rparr>
      | (log, Inr w) \<Rightarrow>
          \<lparr>warnings = log, returned = Inr (stripDeclaredIterations g w), processorAfter = p\<rparr>)"
  by (simp add: run_unfold run_walk_single del: run_walk.simps)

lemma run_processorAfter: "processorAfter (run g p m) = p"
  by (simp add: run_def split: prod.splits sum.splits)

lemma run_returned_error:
  assumes "\<not> skip (atmplContainer p)" and "\<not> invalid (atmplContainer p)"
    and "map_size m \<noteq> 0"
  shows "returned (run g p m) = Inl err \<longleftrightarrow>
         snd (run_walk p m (rev (mapExprList (atmplContainer p)))
                (fileContents (atmplContainer p)) []) = Inl err"
  unfolding run_unfold [OF assms]
  by (cases "run_walk p m (rev (mapExprList (atmplContainer p)))
               (fileContents (atmplContainer p)) []")
     (auto split: sum.splits)

subsection \<open>The loop body and the replacement of a record\<close>

lemma invoke_Nil_guard:
  "(if names \<noteq> [] then PipeFunctionsProcessor_invoke P names v else Inr v)
   = PipeFunctionsProcessor_invoke P names v"
  by (cases names) simp_all

lemma ternaryFalse_truthy: "(if f \<noteq> [] then f else []) = (f :: string)"
  by simp

lemma run_body_replacement:
  "snd (run_body p m e w log) =
     (case replacementOf p m e of
        Inl err \<Rightarrow> Inl err
      | Inr None \<Rightarrow> Inr w
      | Inr (Some v) \<Rightarrow> Inr (replaceRange (startIndex e) (endIndex e) v w))"
  unfolding run_body_def replacementOf_def ternaryChoice_def Let_def invoke_Nil_guard
    ternaryFalse_truthy
  by (simp split: sum.splits option.splits)

lemma invoke_resolved:
  "map (resolvePipeFunction P) names = map Inr fs \<Longrightarrow>
   PipeFunctionsProcessor_invoke P names v = Inr (applyInOrder fs v)"
proof (induction names arbitrary: fs v)
  case Nil
  then show ?case by (simp add: applyInOrder_def)
next
  case (Cons n names)
  then obtain f fs' where fs: "fs = f # fs'" "resolvePipeFunction P n = Inr f"
    "map (resolvePipeFunction P) names = map Inr fs'"
    by (cases fs) auto
  with Cons.IH [OF fs(3)] show ?case
    by (simp add: applyInOrder_def)
qed

lemma forEach_no_match:
  "\<forall>d\<in>set ds. iterMappedKey d \<noteq> k \<Longrightarrow> iterDecList_forEach T k ds r = Inr r"
  by (induction ds arbitrary: r) simp_all

subsection \<open>Which errors the loop can raise\<close>

lemma TemplateFunctionsProcessor_invoke_error:
  "TemplateFunctionsProcessor_invoke T n = Inl err \<Longrightarrow> err = FunctionNotFound n"
  by (auto simp add: TemplateFunctionsProcessor_invoke_def split: option.splits)

lemma forEach_error:
  "iterDecList_forEach T k ds r = Inl err \<Longrightarrow> err \<noteq> NoTemplateParameters"
  by (induction ds arbitrary: r)
     (auto split: if_splits sum.splits dest: TemplateFunctionsProcessor_invoke_error)

lemma resolvePipeFunction_error:
  "resolvePipeFunction P n = Inl err \<Longrightarrow> err = FunctionNotFound n"
  by (auto simp add: resolvePipeFunction_def split: option.splits)

lemma invoke_error:
  "PipeFunctionsProcessor_invoke P ns v = Inl err \<Longrightarrow> err \<noteq> NoTemplateParameters"
  by (induction ns arbitrary: v)
     (auto split: sum.splits dest: resolvePipeFunction_error)

lemma replacementOf_state_error:
  "replacementOf p m e = Inl NoTemplateParameters \<longleftrightarrow>
   \<not> isIterated e \<and> isParameterized e \<and> templateParameters p = None"
  by (auto simp add: replacementOf_def retrieveValueFromIterDec_def
           split: sum.splits option.splits if_splits
           dest: forEach_error invoke_error)

lemma run_body_state_error:
  "snd (run_body p m e w log) = Inl NoTemplateParameters \<longleftrightarrow>
   \<not> isIterated e \<and> isParameterized e \<and> templateParameters p = None"
proof -
  have "snd (run_body p m e w log) = Inl NoTemplateParameters \<longleftrightarrow>
        replacementOf p m e = Inl NoTemplateParameters"
    by (simp add: run_body_replacement split: sum.splits option.splits)
  then show ?thesis
    by (simp add: replacementOf_state_error)
qed

lemma forEach_ok:
  "list_all (\<lambda>d. iterMappedKey d \<noteq> k
                \<or> \<not> isl (TemplateFunctionsProcessor_invoke T (mappedFunction d))) ds \<Longrightarrow>
   \<exists>v. iterDecList_forEach T k ds r = Inr v"
  by (induction ds arbitrary: r) (auto split: sum.splits)

lemma invoke_ok:
  "list_all (\<lambda>n. \<not> isl (resolvePipeFunction P n)) ns \<Longrightarrow>
   \<exists>s. PipeFunctionsProcessor_invoke P ns v = Inr s"
  by (induction ns arbitrary: v) (auto split: sum.splits)

lemma replacementOf_ok:
  assumes "functionsResolve p e"
    and "\<not> (\<not> isIterated e \<and> isParameterized e \<and> templateParameters p = None)"
  shows "\<exists>r. replacementOf p m e = Inr r"
proof (cases "isIterated e")
  case True
  with assms(1) obtain v where "retrieveValueFromIterDec p (mappedKey e) = Inr v"
    unfolding functionsResolve_def retrieveValueFromIterDec_def
    using forEach_ok by fastforce
  with True show ?thesis by (simp add: replacementOf_def)
next
  case False
  show ?thesis
  proof (cases "isParameterized e")
    case True
    with False assms(2) show ?thesis
      by (auto simp add: replacementOf_def split: option.splits)
  next
    case plain: False
    show ?thesis
    proof (cases "map_of m (mappedKey e)")
      case None
      with False plain show ?thesis by (simp add: replacementOf_def)
    next
      case (Some v)
      from assms(1) False plain
      obtain s where "PipeFunctionsProcessor_invoke (pipeFunctionsProcessor p)
                        (pipeFunctions e) (ternaryChoice e v) = Inr s"
        unfolding functionsResolve_def using invoke_ok by fastforce
      with False plain Some show ?thesis by (simp add: replacementOf_def)
    qed
  qed
qed

lemma run_body_ok:
  assumes "functionsResolve p e"
    and "\<not> (\<not> isIterated e \<and> isParameterized e \<and> templateParameters p = None)"
  shows "\<exists>w'. snd (run_body p m e w log) = Inr w'"
  using replacementOf_ok [OF assms, of m]
  by (auto simp add: run_body_replacement split: option.splits)

lemma walk_state_error_only_if:
  "snd (run_walk p m es w log) = Inl NoTemplateParameters \<Longrightarrow>
   templateParameters p = None \<and> (\<exists>e\<in>set es. isParameterized e \<and> \<not> isIterated e)"
proof (induction es arbitrary: w log)
  case Nil
  then show ?case by simp
next
  case (Cons e es)
  obtain l r where B: "run_body p m e w log = (l, r)"
    by (cases "run_body p m e w log")
  show ?case
  proof (cases r)
    case (Inl err)
    with B Cons.prems have "snd (run_body p m e w log) = Inl NoTemplateParameters"
      by simp
    then show ?thesis
      by (simp add: run_body_state_error)
  next
    case (Inr w')
    with B Cons.prems have "snd (run_walk p m es w' l) = Inl NoTemplateParameters"
      by simp
    from Cons.IH [OF this] show ?thesis by simp
  qed
qed

lemma walk_state_error_if:
  "list_all (functionsResolve p) es \<Longrightarrow> templateParameters p = None \<Longrightarrow>
   \<exists>e\<in>set es. isParameterized e \<and> \<not> isIterated e \<Longrightarrow>
   snd (run_walk p m es w log) = Inl NoTemplateParameters"
proof (induction es arbitrary: w log)
  case Nil
  then show ?case by simp
next
  case (Cons e es)
  obtain l r where B: "run_body p m e w log = (l, r)"
    by (cases "run_body p m e w log")
  show ?case
  proof (cases "isParameterized e \<and> \<not> isIterated e")
    case True
    with Cons.prems(2) have "snd (run_body p m e w log) = Inl NoTemplateParameters"
      by (simp add: run_body_state_error)
    with B show ?thesis by simp
  next
    case False
    with Cons.prems(1) obtain w' where "snd (run_body p m e w log) = Inr w'"
      using run_body_ok [of p e m w log] by auto
    with B have r: "r = Inr w'" by simp
    from False Cons.prems(3) have "\<exists>e\<in>set es. isParameterized e \<and> \<not> isIterated e"
      by auto
    with Cons.IH [of w' l] Cons.prems(1,2)
    have "snd (run_walk p m es w' l) = Inl NoTemplateParameters" by simp
    with B r show ?thesis by simp
  qed
qed

subsection \<open>Descending replacement against one-pass splicing\<close>

lemma take_take_drop: "a \<le> b \<Longrightarrow> take a xs @ take (b - a) (drop a xs) = take b xs"
  using take_add [of a "b - a" xs] by simp

lemma replaceRange_prefix:
  "s \<le> e \<Longrightarrow> e \<le> length t \<Longrightarrow>
   replaceRange s e v (take e t @ rest) = take s t @ js_string_of v @ rest"
  by (simp add: replaceRange_def min_def)

lemma walk_splice:
  "rangesChain pos xs (length t) \<Longrightarrow>
   snd (run_walk p m (rev xs) t log) =
     (case replacements p m xs of
        Inl err \<Rightarrow> Inl err
      | Inr es \<Rightarrow> Inr (take pos t @ spliceFrom pos t es))"
proof (induction xs arbitrary: pos)
  case Nil
  then show ?case by simp
next
  case (Cons x xs)
  from Cons.prems have ch: "pos \<le> startIndex x" "startIndex x \<le> endIndex x"
    "endIndex x \<le> length t" "rangesChain (endIndex x) xs (length t)"
    by simp_all
  note IH = Cons.IH [OF ch(4)]
  obtain l r where R: "run_walk p m (rev xs) t log = (l, r)"
    by (cases "run_walk p m (rev xs) t log")
  show ?case
  proof (cases "replacements p m xs")
    case (Inl err)
    with IH R have "r = Inl err" by simp
    with R Inl show ?thesis by (simp add: run_walk_append)
  next
    case (Inr es)
    with IH R have r: "r = Inr (take (endIndex x) t @ spliceFrom (endIndex x) t es)" by simp
    have "snd (run_walk p m (rev (x # xs)) t log)
          = snd (run_body p m x (take (endIndex x) t @ spliceFrom (endIndex x) t es) l)"
      using R r by (simp add: run_walk_append split: prod.splits sum.splits)
    also have "\<dots> = (case replacementOf p m x of
                       Inl err \<Rightarrow> Inl err
                     | Inr None \<Rightarrow> Inr (take (endIndex x) t @ spliceFrom (endIndex x) t es)
                     | Inr (Some v) \<Rightarrow>
                         Inr (take (startIndex x) t @ js_string_of v
                              @ spliceFrom (endIndex x) t es))"
      by (simp add: run_body_replacement replaceRange_prefix [OF ch(2) ch(3)]
               split: sum.splits option.splits)
    also have "\<dots> = (case replacements p m (x # xs) of
                       Inl err \<Rightarrow> Inl err
                     | Inr es' \<Rightarrow> Inr (take pos t @ spliceFrom pos t es'))"
      using Inr take_take_drop [OF ch(1), of t] take_take_drop [OF ch(2), of t]
      by (auto split: sum.splits option.splits simp: append_assoc [symmetric]
               simp del: append_assoc)
    finally show ?thesis .
  qed
qed

lemma rangesChain_of_sorted:
  "ascendingByStart xs \<Longrightarrow> nonOverlapping xs \<Longrightarrow> rangesWithin n xs \<Longrightarrow>
   \<forall>a\<in>set xs. pos \<le> startIndex a \<Longrightarrow> rangesChain pos xs n"
proof (induction xs arbitrary: pos)
  case Nil
  then show ?case by simp
next
  case (Cons x xs)
  have "\<forall>a\<in>set xs. endIndex x \<le> startIndex a"
  proof
    fix a assume a: "a \<in> set xs"
    from Cons.prems(1) a have "startIndex x \<le> startIndex a"
      by (simp add: ascendingByStart_def)
    moreover from Cons.prems(3) a have "startIndex a < endIndex a"
      by (simp add: rangesWithin_def list_all_iff)
    moreover from Cons.prems(2) a
    have "endIndex x \<le> startIndex a \<or> endIndex a \<le> startIndex x"
      by (simp add: list_all_iff)
    ultimately show "endIndex x \<le> startIndex a" by linarith
  qed
  moreover have "ascendingByStart xs" "nonOverlapping xs" "rangesWithin n xs"
    using Cons.prems by (simp_all add: ascendingByStart_def rangesWithin_def)
  ultimately have "rangesChain (endIndex x) xs n"
    using Cons.IH by blast
  with Cons.prems show ?case
    by (simp add: rangesWithin_def)
qed

subsection \<open>The warnings of a run\<close>

lemma run_warnings:
  "warnings (run g p m) =
     (if skip (atmplContainer p) \<or> invalid (atmplContainer p) \<or> map_size m = 0 then []
      else fst (run_walk p m (rev (mapExprList (atmplContainer p)))
                  (fileContents (atmplContainer p)) []))"
  by (auto simp add: run_def run_loop_walk split: prod.splits sum.splits)

lemma run_completed:
  assumes "\<not> skip (atmplContainer p)" and "\<not> invalid (atmplContainer p)"
    and "map_size m \<noteq> 0" and "returned (run g p m) = Inr s"
  shows "\<exists>w'. run_walk p m (rev (mapExprList (atmplContainer p)))
                 (fileContents (atmplContainer p)) [] = (warnings (run g p m), Inr w')"
  using assms(4) unfolding run_unfold [OF assms(1-3)]
  by (cases "run_walk p m (rev (mapExprList (atmplContainer p)))
               (fileContents (atmplContainer p)) []")
     (auto split: sum.splits)

lemma walk_count:
  assumes step: "\<And>e w log l w1. run_body p m e w log = (l, Inr w1) \<Longrightarrow>
                   count_list l x = count_list log x + (if P e then 1 else 0)"
  shows "run_walk p m es w log = (l, Inr w') \<Longrightarrow>
         count_list l x = count_list log x + length (filter P es)"
proof (induction es arbitrary: w log)
  case Nil
  then show ?case by simp
next
  case (Cons e es)
  obtain l1 r1 where B: "run_body p m e w log = (l1, r1)"
    by (cases "run_body p m e w log")
  from Cons.prems B obtain w1 where r1: "r1 = Inr w1"
    and W: "run_walk p m es w1 l1 = (l, Inr w')"
    by (cases r1) auto
  from step [of e w log l1 w1] B r1
  have "count_list l1 x = count_list log x + (if P e then 1 else 0)" by simp
  with Cons.IH [OF W] show ?case by simp
qed

lemma run_body_count_key:
  assumes "\<not> optionalityByDefault (atmplContainer p)" and "map_of m K = None"
    and "run_body p m e w log = (l, Inr w1)"
  shows "count_list l (ExpectedKey K (filename (atmplContainer p))) =
         count_list log (ExpectedKey K (filename (atmplContainer p)))
         + (if \<not> isIterated e \<and> \<not> isParameterized e \<and> \<not> isOptional e \<and> mappedKey e = K
            then 1 else 0)"
  using assms
  by (auto simp add: run_body_def Let_def split: if_splits sum.splits option.splits)

lemma run_body_count_parameter:
  assumes "templateParameters p = Some tp" and "getProperty tp K = None"
    and "run_body p m e w log = (l, Inr w1)"
  shows "count_list l (ExpectedParameter K (filename (atmplContainer p))) =
         count_list log (ExpectedParameter K (filename (atmplContainer p)))
         + (if \<not> isIterated e \<and> isParameterized e \<and> mappedKey e = K then 1 else 0)"
  using assms
  by (auto simp add: run_body_def Let_def split: if_splits sum.splits option.splits)

lemma run_count:
  assumes step: "\<And>e w log l w1. run_body p m e w log = (l, Inr w1) \<Longrightarrow>
                   count_list l x = count_list log x + (if P e then 1 else 0)"
    and "\<not> skip (atmplContainer p)" and "\<not> invalid (atmplContainer p)"
    and "map_size m \<noteq> 0" and "returned (run g p m) = Inr s"
  shows "count_list (warnings (run g p m)) x
         = length (filter P (mapExprList (atmplContainer p)))"
proof -
  from run_completed [OF assms(2-5)] obtain w' where
    "run_walk p m (rev (mapExprList (atmplContainer p)))
       (fileContents (atmplContainer p)) [] = (warnings (run g p m), Inr w')" ..
  from walk_count [where P = P and x = x, OF step this]
  have "count_list (warnings (run g p m)) x
        = length (filter P (rev (mapExprList (atmplContainer p))))"
    by simp
  also have "\<dots> = length (filter P (mapExprList (atmplContainer p)))"
    by (simp add: rev_filter [symmetric])
  finally show ?thesis .
qed

lemma run_body_no_key_warning:
  assumes "\<not> isIterated e \<and> \<not> isParameterized e \<and> mappedKey e = K \<longrightarrow>
           isOptional e \<or> optionalityByDefault (atmplContainer p)"
    and "ExpectedKey K f \<notin> set log"
  shows "ExpectedKey K f \<notin> set (fst (run_body p m e w log))"
  using assms
  by (auto simp add: run_body_def Let_def split: if_splits sum.splits option.splits)

lemma walk_no_key_warning:
  "\<forall>e\<in>set es. \<not> isIterated e \<and> \<not> isParameterized e \<and> mappedKey e = K \<longrightarrow>
               isOptional e \<or> optionalityByDefault (atmplContainer p) \<Longrightarrow>
   ExpectedKey K f \<notin> set log \<Longrightarrow>
   ExpectedKey K f \<notin> set (fst (run_walk p m es w log))"
proof (induction es arbitrary: w log)
  case Nil
  then show ?case by simp
next
  case (Cons e es)
  obtain l1 r1 where B: "run_body p m e w log = (l1, r1)"
    by (cases "run_body p m e w log")
  from Cons.prems have "ExpectedKey K f \<notin> set (fst (run_body p m e w log))"
    by (intro run_body_no_key_warning) simp_all
  with B have l1: "ExpectedKey K f \<notin> set l1" by simp
  show ?case
  proof (cases r1)
    case (Inl err)
    with B l1 show ?thesis by simp
  next
    case (Inr w1)
    from Cons.prems(1) have "\<forall>e\<in>set es. \<not> isIterated e \<and> \<not> isParameterized e
        \<and> mappedKey e = K \<longrightarrow> isOptional e \<or> optionalityByDefault (atmplContainer p)"
      by simp
    from Cons.IH [OF this l1, of w1] B Inr show ?thesis by simp
  qed
qed

lemma run_no_key_warning:
  assumes "\<forall>e\<in>set (mapExprList (atmplContainer p)).
             \<not> isIterated e \<and> \<not> isParameterized e \<and> mappedKey e = K \<longrightarrow>
             isOptional e \<or> optionalityByDefault (atmplContainer p)"
  shows "ExpectedKey K f \<notin> set (warnings (run g p m))"
proof -
  from assms have "\<forall>e\<in>set (rev (mapExprList (atmplContainer p))).
      \<not> isIterated e \<and> \<not> isParameterized e \<and> mappedKey e = K \<longrightarrow>
      isOptional e \<or> optionalityByDefault (atmplContainer p)"
    by simp
  from walk_no_key_warning [OF this, of f "[]"] show ?thesis
    by (simp add: run_warnings)
qed

section \<open>Properties of run and evaluateBoolean\<close>

subsection \<open>Offset safety\<close>

text \<open>
  C1. For a template that passes the guards and whose records are in ascending order of
  \<open>startIndex\<close> with non-empty, pairwise non-overlapping half-open ranges inside the
  original text, \<open>run\<close>, which rewrites the ranges from the highest offset down, returns
  what one pass over the original, unmodified text returns when every replacement is
  computed first and all are spliced in together, whatever the lengths of the
  replacements; the cleanup of declared-iteration markers is applied to that text. If
  resolving a record raises an error, \<open>run\<close> raises the same error.
\<close>

theorem run_offset_safety:
  assumes "\<not> skip (atmplContainer p)" and "\<not> invalid (atmplContainer p)"
    and "map_size m \<noteq> 0"
    and "ascendingByStart (mapExprList (atmplContainer p))"
    and "nonOverlapping (mapExprList (atmplContainer p))"
    and "rangesWithin (length (fileContents (atmplContainer p))) (mapExprList (atmplContainer p))"
  shows "returned (run g p m) =
           (case replacements p m (mapExprList (atmplContainer p)) of
              Inl err \<Rightarrow> Inl err
            | Inr edits \<Rightarrow>
                Inr (stripDeclaredIterations g
                       (spliceAll (fileContents (atmplContainer p)) edits)))"
proof -
  let ?xs = "mapExprList (atmplContainer p)" and ?t = "fileContents (atmplContainer p)"
  have "rangesChain 0 ?xs (length ?t)"
    using assms(4-6) by (rule rangesChain_of_sorted) simp
  from walk_splice [OF this, of p m "[]"]
  have "snd (run_walk p m (rev ?xs) ?t []) =
          (case replacements p m ?xs of Inl err \<Rightarrow> Inl err
           | Inr es \<Rightarrow> Inr (spliceAll ?t es))"
    by (simp add: spliceAll_def split: sum.splits)
  then show ?thesis
    unfolding run_unfold [OF assms(1-3)]
    by (cases "run_walk p m (rev ?xs) ?t []") (auto split: sum.splits)
qed

theorem run_offset_safety_witness:
  "returned (run exampleGrammar exampleProcessor [(''name'', ''Ada''), (''age'', ''37'')])
     = Inr ''Hello Ada, you are 37!''"
  using run_offset_safety [of exampleProcessor "[(''name'', ''Ada''), (''age'', ''37'')]" exampleGrammar]
  by (simp add: example_defs map_size_def ascendingByStart_def rangesWithin_def
        replacementOf_def ternaryChoice_def spliceAll_def)

subsection \<open>A key missing from the map\<close>

text \<open>
  With the greeting template, whose record for \<open>age\<close> is not optional, and a non-empty map
  without \<open>age\<close>, \<open>run\<close> warns once and returns a text in which the placeholder
  \<open>::age::\<close> is still there: the range is not rewritten.
\<close>

theorem run_missing_key_counterexample:
  "\<not> isOptional (exampleExpr ''age'' 24 31) \<and> \<not> optionalityByDefault exampleContainer
   \<and> map_of [(''name'', ''Ada'')] ''age'' = None
   \<and> run exampleGrammar exampleProcessor [(''name'', ''Ada'')] =
       \<lparr>warnings = [ExpectedKey ''age'' ''greeting.atmpl''],
        returned = Inr ''Hello Ada, you are ::age::!'',
        processorAfter = exampleProcessor\<rparr>
   \<and> returned (run exampleGrammar exampleProcessor [(''name'', ''Ada'')])
       \<noteq> Inr ''Hello Ada, you are !''"
  by (simp add: run_def run_body_def replaceRange_def map_size_def example_defs)

text \<open>
  C2, as the code has it. For a plain mapped record for key \<open>K\<close> that is not optional
  (neither by its own flag nor by the container's default) and a map without \<open>K\<close>, the
  loop body logs exactly one warning for \<open>K\<close>, raises no error and leaves the working text
  as it is, the placeholder included. A run that passes the guards and returns a string has
  logged one warning for \<open>K\<close> for each such record of the template, so exactly one when
  there is one. For a template whose only record it is and a non-empty map, \<open>run\<close>
  completes with that single warning and returns the file contents after the cleanup of
  declared-iteration markers.
\<close>

theorem run_missing_key_warns:
  assumes "\<not> isIterated e" and "\<not> isParameterized e"
    and "\<not> isOptional e" and "\<not> optionalityByDefault (atmplContainer p)"
    and "map_of m (mappedKey e) = None"
  shows "run_body p m e w log =
           (log @ [ExpectedKey (mappedKey e) (filename (atmplContainer p))], Inr w)
         \<and> (\<not> skip (atmplContainer p) \<and> \<not> invalid (atmplContainer p) \<and> map_size m \<noteq> 0
              \<and> returned (run g p m) = Inr s \<longrightarrow>
            count_list (warnings (run g p m))
              (ExpectedKey (mappedKey e) (filename (atmplContainer p))) =
            length (filter (\<lambda>e'. \<not> isIterated e' \<and> \<not> isParameterized e' \<and> \<not> isOptional e'
                                  \<and> mappedKey e' = mappedKey e)
                      (mapExprList (atmplContainer p))))
         \<and> (\<not> skip (atmplContainer p) \<and> \<not> invalid (atmplContainer p) \<and> map_size m \<noteq> 0
              \<and> mapExprList (atmplContainer p) = [e] \<longrightarrow>
            run g p m =
              \<lparr>warnings = [ExpectedKey (mappedKey e) (filename (atmplContainer p))],
               returned = Inr (stripDeclaredIterations g (fileContents (atmplContainer p))),
               processorAfter = p\<rparr>)"
proof -
  have body: "\<And>w log. run_body p m e w log =
      (log @ [ExpectedKey (mappedKey e) (filename (atmplContainer p))], Inr w)"
    using assms by (simp add: run_body_def)
  have count: "count_list (warnings (run g p m))
        (ExpectedKey (mappedKey e) (filename (atmplContainer p))) =
      length (filter (\<lambda>e'. \<not> isIterated e' \<and> \<not> isParameterized e' \<and> \<not> isOptional e'
                            \<and> mappedKey e' = mappedKey e)
                (mapExprList (atmplContainer p)))"
    if "\<not> skip (atmplContainer p)" "\<not> invalid (atmplContainer p)" "map_size m \<noteq> 0"
      "returned (run g p m) = Inr s"
    using that by (intro run_count run_body_count_key [OF assms(4,5)])
  show ?thesis
    using count by (simp add: body run_single)
qed

theorem run_missing_key_warns_witness:
  "run exampleGrammar (singleProcessor (exampleExpr ''age'' 8 15) None) [(''name'', ''Ada'')] =
     \<lparr>warnings = [ExpectedKey ''age'' ''age.atmpl''],
      returned = Inr ''You are ::age::!'',
      processorAfter = singleProcessor (exampleExpr ''age'' 8 15) None\<rparr>"
  using run_missing_key_warns [where e = "exampleExpr ''age'' 8 15"
          and p = "singleProcessor (exampleExpr ''age'' 8 15) None"
          and m = "[(''name'', ''Ada'')]" and g = exampleGrammar]
  by (simp add: example_defs map_size_def)

text \<open>
  C9. For a plain mapped record that is optional, by its own flag or by the container's
  default, and a map without its key, the loop body rewrites the record's range with the
  empty string and logs nothing. If every plain record of the template for that key is
  optional in this sense, no run logs a warning for the key. For a template whose only
  record it is and a non-empty map, \<open>run\<close> returns the text without the range and no
  warning.
\<close>

theorem run_missing_optional_key_silent:
  assumes "\<not> isIterated e" and "\<not> isParameterized e"
    and "isOptional e \<or> optionalityByDefault (atmplContainer p)"
    and "map_of m (mappedKey e) = None"
  shows "run_body p m e w log = (log, Inr (take (startIndex e) w @ drop (endIndex e) w))
         \<and> ((\<forall>e'\<in>set (mapExprList (atmplContainer p)).
                \<not> isIterated e' \<and> \<not> isParameterized e' \<and> mappedKey e' = mappedKey e \<longrightarrow>
                isOptional e' \<or> optionalityByDefault (atmplContainer p)) \<longrightarrow>
            ExpectedKey (mappedKey e) f \<notin> set (warnings (run g p m)))
         \<and> (\<not> skip (atmplContainer p) \<and> \<not> invalid (atmplContainer p) \<and> map_size m \<noteq> 0
              \<and> mapExprList (atmplContainer p) = [e] \<longrightarrow>
            run g p m =
              \<lparr>warnings = [],
               returned = Inr (stripDeclaredIterations g
                                 (take (startIndex e) (fileContents (atmplContainer p))
                                  @ drop (endIndex e) (fileContents (atmplContainer p)))),
               processorAfter = p\<rparr>)"
proof -
  have body: "\<And>w log. run_body p m e w log =
      (log, Inr (take (startIndex e) w @ drop (endIndex e) w))"
    using assms by (auto simp add: run_body_def replaceRange_def)
  show ?thesis
    using run_no_key_warning [of p "mappedKey e" f g m]
    by (simp add: body run_single)
qed

theorem run_missing_optional_key_silent_witness:
  "run exampleGrammar
     (singleProcessor ((exampleExpr ''age'' 8 15)\<lparr>isOptional := True\<rparr>) None)
     [(''name'', ''Ada'')] =
     \<lparr>warnings = [], returned = Inr ''You are !'',
      processorAfter = singleProcessor ((exampleExpr ''age'' 8 15)\<lparr>isOptional := True\<rparr>) None\<rparr>"
  using run_missing_optional_key_silent
          [where e = "(exampleExpr ''age'' 8 15)\<lparr>isOptional := True\<rparr>"
             and p = "singleProcessor ((exampleExpr ''age'' 8 15)\<lparr>isOptional := True\<rparr>) None"
             and m = "[(''name'', ''Ada'')]" and g = exampleGrammar]
  by (simp add: example_defs map_size_def)

subsection \<open>A value present in the map\<close>

text \<open>
  C8. For a plain mapped record whose key is present in the map with value \<open>v\<close>: if the
  record is ternary, \<open>v\<close> is first replaced by \<open>ternaryTrue\<close> when \<open>v\<close> is not empty and by
  \<open>ternaryFalse\<close> otherwise (the empty string when no false branch is declared); then the
  transforms named by the pipe chain are applied in declared order, each to the output of
  the one before; the final string is written into the record's range.
\<close>

theorem run_present_value_resolution:
  assumes "\<not> isIterated e" and "\<not> isParameterized e"
    and "map_of m (mappedKey e) = Some v"
    and "map (resolvePipeFunction (pipeFunctionsProcessor p)) (pipeFunctions e) = map Inr fs"
  shows "run_body p m e w log =
           (log, Inr (take (startIndex e) w @ applyInOrder fs (ternaryChoice e v)
                      @ drop (endIndex e) w))"
proof -
  have "PipeFunctionsProcessor_invoke (pipeFunctionsProcessor p) (pipeFunctions e)
          (ternaryChoice e v) = Inr (applyInOrder fs (ternaryChoice e v))"
    using assms(4) by (rule invoke_resolved)
  then show ?thesis
    using assms(1-3)
    unfolding run_body_def Let_def invoke_Nil_guard ternaryFalse_truthy
    by (simp add: ternaryChoice_def replaceRange_def)
qed

theorem run_present_value_resolution_witness:
  "run_body
     (singleProcessor
        ((exampleExpr ''age'' 8 15)\<lparr>isTernary := True, ternaryTrue := ''yes'',
           ternaryFalse := Some ''no'', pipeFunctions := [''doSomething'', ''twice'']\<rparr>) None)
     [(''age'', ''37'')]
     ((exampleExpr ''age'' 8 15)\<lparr>isTernary := True, ternaryTrue := ''yes'',
        ternaryFalse := Some ''no'', pipeFunctions := [''doSomething'', ''twice'']\<rparr>)
     ''You are ::age::!'' [] =
   ([], Inr ''You are yesASDF!!!yesASDF!!!!'')"
  using run_present_value_resolution
          [of "(exampleExpr ''age'' 8 15)\<lparr>isTernary := True, ternaryTrue := ''yes'',
                 ternaryFalse := Some ''no'', pipeFunctions := [''doSomething'', ''twice'']\<rparr>"
              "[(''age'', ''37'')]" "''37''"
              "singleProcessor
                 ((exampleExpr ''age'' 8 15)\<lparr>isTernary := True, ternaryTrue := ''yes'',
                    ternaryFalse := Some ''no'', pipeFunctions := [''doSomething'', ''twice'']\<rparr>)
                 None"
              "[\<lambda>str. str @ ''ASDF!!!'', \<lambda>str. str @ str]" "''You are ::age::!''" "[]"]
  by (simp add: example_defs resolvePipeFunction_def applyInOrder_def ternaryChoice_def)

subsection \<open>Parameterized records\<close>

text \<open>
  With a template whose only record is parameterized, a parameter set that was supplied
  but yields no value for the record's key, and a non-empty map, \<open>run\<close> warns and returns
  the text with the placeholder still there: the range is not rewritten with the empty
  string.
\<close>

theorem run_missing_parameter_counterexample:
  "isParameterized ((exampleExpr ''age'' 8 15)\<lparr>isParameterized := True\<rparr>)
   \<and> getProperty (objectLiteral [(''other'', Some ''x'')]) ''age'' = None
   \<and> run exampleGrammar
        (singleProcessor ((exampleExpr ''age'' 8 15)\<lparr>isParameterized := True\<rparr>)
           (Some (objectLiteral [(''other'', Some ''x'')])))
        [(''name'', ''Ada'')] =
       \<lparr>warnings = [ExpectedParameter ''age'' ''age.atmpl''],
        returned = Inr ''You are ::age::!'',
        processorAfter =
          singleProcessor ((exampleExpr ''age'' 8 15)\<lparr>isParameterized := True\<rparr>)
            (Some (objectLiteral [(''other'', Some ''x'')]))\<rparr>
   \<and> returned (run exampleGrammar
        (singleProcessor ((exampleExpr ''age'' 8 15)\<lparr>isParameterized := True\<rparr>)
           (Some (objectLiteral [(''other'', Some ''x'')])))
        [(''name'', ''Ada'')]) \<noteq> Inr ''You are !''"
  by (simp add: run_def run_body_def replaceRange_def map_size_def getProperty_def example_defs)

text \<open>
  A key that is not among the own properties of the parameter set can still have a value:
  when the property read finds a value, own or inherited, the loop body writes it into the
  range and logs nothing. With the empty object literal and a parameterized record for the
  key \<open>toString\<close>, \<open>run\<close> writes the text of the inherited function and does not warn.
\<close>

lemma run_body_parameter_value:
  assumes "\<not> isIterated e" and "isParameterized e"
    and "templateParameters p = Some tp" and "getProperty tp (mappedKey e) = Some v"
  shows "run_body p m e w log =
           (log, Inr (replaceRange (startIndex e) (endIndex e) (JSString v) w))"
  using assms by (simp add: run_body_def)

lemma run_inherited_member_example:
  "getProperty (objectLiteral []) ''toString'' = Some ''function toString() { [native code] }''
   \<and> run exampleGrammar
        (singleProcessor ((exampleExpr ''toString'' 8 15)\<lparr>isParameterized := True\<rparr>)
           (Some (objectLiteral [])))
        [(''name'', ''Ada'')] =
       \<lparr>warnings = [],
        returned = Inr ''You are function toString() { [native code] }!'',
        processorAfter =
          singleProcessor ((exampleExpr ''toString'' 8 15)\<lparr>isParameterized := True\<rparr>)
            (Some (objectLiteral []))\<rparr>"
  by (simp add: run_def run_body_def replaceRange_def map_size_def getProperty_def example_defs)

text \<open>
  C7, as the code has it. For a parameterized record for whose key the supplied parameter
  set yields no value (the property read \<open>templateParameters[key]\<close> is \<open>null\<close> or
  \<open>undefined\<close>: the key is neither a property of the set with a value nor a member it
  inherits), the loop body logs one warning for the parameter, raises no error and leaves
  the working text as it is, the placeholder included. A run that passes the guards and
  returns a string has logged one warning for the parameter for each such record of the
  template. For a template whose only record it is and a non-empty map, \<open>run\<close> completes
  with that warning and returns the file contents after the cleanup of declared-iteration
  markers.
\<close>

theorem run_missing_parameter_warns:
  assumes "\<not> isIterated e" and "isParameterized e"
    and "templateParameters p = Some tp" and "getProperty tp (mappedKey e) = None"
  shows "run_body p m e w log =
           (log @ [ExpectedParameter (mappedKey e) (filename (atmplContainer p))], Inr w)
         \<and> (\<not> skip (atmplContainer p) \<and> \<not> invalid (atmplContainer p) \<and> map_size m \<noteq> 0
              \<and> returned (run g p m) = Inr s \<longrightarrow>
            count_list (warnings (run g p m))
              (ExpectedParameter (mappedKey e) (filename (atmplContainer p))) =
            length (filter (\<lambda>e'. \<not> isIterated e' \<and> isParameterized e'
                                  \<and> mappedKey e' = mappedKey e)
                      (mapExprList (atmplContainer p))))
         \<and> (\<not> skip (atmplContainer p) \<and> \<not> invalid (atmplContainer p) \<and> map_size m \<noteq> 0
              \<and> mapExprList (atmplContainer p) = [e] \<longrightarrow>
            run g p m =
              \<lparr>warnings = [ExpectedParameter (mappedKey e) (filename (atmplContainer p))],
               returned = Inr (stripDeclaredIterations g (fileContents (atmplContainer p))),
               processorAfter = p\<rparr>)"
proof -
  have body: "\<And>w log. run_body p m e w log =
      (log @ [ExpectedParameter (mappedKey e) (filename (atmplContainer p))], Inr w)"
    using assms by (simp add: run_body_def)
  have count: "count_list (warnings (run g p m))
        (ExpectedParameter (mappedKey e) (filename (atmplContainer p))) =
      length (filter (\<lambda>e'. \<not> isIterated e' \<and> isParameterized e' \<and> mappedKey e' = mappedKey e)
                (mapExprList (atmplContainer p)))"
    if "\<not> skip (atmplContainer p)" "\<not> invalid (atmplContainer p)" "map_size m \<noteq> 0"
      "returned (run g p m) = Inr s"
    using that by (intro run_count run_body_count_parameter [OF assms(3,4)])
  show ?thesis
    using count by (simp add: body run_single)
qed

theorem run_missing_parameter_warns_witness:
  "run exampleGrammar
     (singleProcessor ((exampleExpr ''age'' 8 15)\<lparr>isParameterized := True\<rparr>)
        (Some (objectLiteral [(''name'', Some ''Ada''), (''toString'', None)])))
     [(''age'', ''37'')] =
     \<lparr>warnings = [ExpectedParameter ''age'' ''age.atmpl''],
      returned = Inr ''You are ::age::!'',
      processorAfter =
        singleProcessor ((exampleExpr ''age'' 8 15)\<lparr>isParameterized := True\<rparr>)
          (Some (objectLiteral [(''name'', Some ''Ada''), (''toString'', None)]))\<rparr>"
  using run_missing_parameter_warns
          [where e = "(exampleExpr ''age'' 8 15)\<lparr>isParameterized := True\<rparr>"
             and p = "singleProcessor ((exampleExpr ''age'' 8 15)\<lparr>isParameterized := True\<rparr>)
                        (Some (objectLiteral [(''name'', Some ''Ada''), (''toString'', None)]))"
             and tp = "objectLiteral [(''name'', Some ''Ada''), (''toString'', None)]"
             and m = "[(''age'', ''37'')]" and g = exampleGrammar]
  by (simp add: example_defs map_size_def getProperty_def)

text \<open>
  With a template that has a parameterized record and a processor whose parameters were
  never set, a call of \<open>run\<close> with the empty map throws the input error of the guard, not
  the state error.
\<close>

theorem run_state_error_counterexample:
  "isParameterized ((exampleExpr ''age'' 8 15)\<lparr>isParameterized := True\<rparr>)
   \<and> templateParameters
       (singleProcessor ((exampleExpr ''age'' 8 15)\<lparr>isParameterized := True\<rparr>) None) = None
   \<and> returned (run exampleGrammar
        (singleProcessor ((exampleExpr ''age'' 8 15)\<lparr>isParameterized := True\<rparr>) None) [])
       = Inl EmptyMap"
  by (simp add: run_def map_size_def example_defs)

text \<open>
  C6, as the code has it. If \<open>run\<close> throws the state error, then the guards were passed
  (the template is neither skipped nor invalid and the map is not empty), no parameter
  set is there and the template has a parameterized record; so a template without
  parameterized records never gets the state error. Conversely, when the guards are
  passed, every function the records refer to is registered, no parameter set is there
  and the template has a parameterized record, \<open>run\<close> throws the state error. After
  \<open>setTemplateParameters\<close> with a parameter set, \<open>run\<close> never throws it. In every case
  the processor and its container are after the call what they were before, and a thrown
  error means that no string is returned.
\<close>

theorem run_state_error:
  "(returned (run g p m) = Inl NoTemplateParameters \<longrightarrow>
      \<not> skip (atmplContainer p) \<and> \<not> invalid (atmplContainer p) \<and> map_size m \<noteq> 0
      \<and> templateParameters p = None
      \<and> (\<exists>e\<in>set (mapExprList (atmplContainer p)). isParameterized e \<and> \<not> isIterated e))
   \<and> (\<not> skip (atmplContainer p) \<and> \<not> invalid (atmplContainer p) \<and> map_size m \<noteq> 0
        \<and> list_all (functionsResolve p) (mapExprList (atmplContainer p))
        \<and> templateParameters p = None
        \<and> (\<exists>e\<in>set (mapExprList (atmplContainer p)). isParameterized e \<and> \<not> isIterated e)
      \<longrightarrow> returned (run g p m) = Inl NoTemplateParameters)
   \<and> returned (run g (setTemplateParameters (Some tp) p) m) \<noteq> Inl NoTemplateParameters
   \<and> processorAfter (run g p m) = p
   \<and> fileContents (atmplContainer (processorAfter (run g p m)))
       = fileContents (atmplContainer p)"
proof -
  let ?xs = "mapExprList (atmplContainer p)"
  have only_if: "\<not> skip (atmplContainer p) \<and> \<not> invalid (atmplContainer p) \<and> map_size m \<noteq> 0
      \<and> templateParameters p = None
      \<and> (\<exists>e\<in>set (mapExprList (atmplContainer p)). isParameterized e \<and> \<not> isIterated e)"
    if thrown: "returned (run g p m) = Inl NoTemplateParameters" for p
  proof -
    let ?xs = "mapExprList (atmplContainer p)"
    from thrown have guards: "\<not> skip (atmplContainer p)" "\<not> invalid (atmplContainer p)"
      "map_size m \<noteq> 0"
      by (auto simp add: run_def split: if_splits)
    from thrown have "snd (run_walk p m (rev ?xs) (fileContents (atmplContainer p)) [])
        = Inl NoTemplateParameters"
      by (simp add: run_returned_error [OF guards])
    from walk_state_error_only_if [OF this] guards show ?thesis by simp
  qed
  have "if": "returned (run g p m) = Inl NoTemplateParameters"
    if guards: "\<not> skip (atmplContainer p)" "\<not> invalid (atmplContainer p)" "map_size m \<noteq> 0"
      and res: "list_all (functionsResolve p) ?xs"
      and none: "templateParameters p = None"
      and ex: "\<exists>e\<in>set ?xs. isParameterized e \<and> \<not> isIterated e"
  proof -
    from res have a: "list_all (functionsResolve p) (rev ?xs)"
      by (simp add: list_all_iff)
    from ex have b: "\<exists>e\<in>set (rev ?xs). isParameterized e \<and> \<not> isIterated e"
      by simp
    have "snd (run_walk p m (rev ?xs) (fileContents (atmplContainer p)) [])
        = Inl NoTemplateParameters"
      by (rule walk_state_error_if [OF a none b])
    then show ?thesis
      by (simp add: run_returned_error [OF guards])
  qed
  have "templateParameters (setTemplateParameters (Some tp) p) \<noteq> None"
    by (simp add: setTemplateParameters_def)
  with only_if [of "setTemplateParameters (Some tp) p"]
  have set: "returned (run g (setTemplateParameters (Some tp) p) m) \<noteq> Inl NoTemplateParameters"
    by blast
  show ?thesis
    using only_if [of p] "if" set by (simp add: run_processorAfter)
qed

theorem run_state_error_witness:
  "returned (run exampleGrammar
     (singleProcessor ((exampleExpr ''age'' 8 15)\<lparr>isParameterized := True\<rparr>) None)
     [(''age'', ''37'')]) = Inl NoTemplateParameters"
  using run_state_error [where g = exampleGrammar
          and p = "singleProcessor ((exampleExpr ''age'' 8 15)\<lparr>isParameterized := True\<rparr>) None"
          and m = "[(''age'', ''37'')]"]
  by (simp add: example_defs map_size_def functionsResolve_def)

subsection \<open>Iterated records\<close>

text \<open>
  C10. For an iterated record whose key matches no Declared Iteration of the container,
  the lookup returns \<open>undefined\<close> without invoking anything, and the loop body neither
  throws nor warns: it rewrites the record's range with that undefined value. For a
  template whose only record it is and a non-empty map, \<open>run\<close> completes without warning
  and returns a string.
\<close>

theorem run_iterated_without_declared_iteration:
  assumes "isIterated e"
    and "\<forall>d\<in>set (iterDecList (atmplContainer p)). iterMappedKey d \<noteq> mappedKey e"
  shows "retrieveValueFromIterDec p (mappedKey e) = Inr JSUndefined
         \<and> run_body p m e w log =
             (log, Inr (replaceRange (startIndex e) (endIndex e) JSUndefined w))
         \<and> (\<not> skip (atmplContainer p) \<and> \<not> invalid (atmplContainer p) \<and> map_size m \<noteq> 0
              \<and> mapExprList (atmplContainer p) = [e] \<longrightarrow>
            run g p m =
              \<lparr>warnings = [],
               returned = Inr (stripDeclaredIterations g
                                 (replaceRange (startIndex e) (endIndex e) JSUndefined
                                    (fileContents (atmplContainer p)))),
               processorAfter = p\<rparr>)"
proof -
  have r: "retrieveValueFromIterDec p (mappedKey e) = Inr JSUndefined"
    using assms(2) by (simp add: retrieveValueFromIterDec_def forEach_no_match)
  have body: "\<And>w log. run_body p m e w log =
      (log, Inr (replaceRange (startIndex e) (endIndex e) JSUndefined w))"
    using assms(1) r by (simp add: run_body_def)
  show ?thesis
    by (simp add: r body run_single)
qed

theorem run_iterated_without_declared_iteration_witness:
  "run exampleGrammar
     (singleProcessor ((exampleExpr ''age'' 8 15)\<lparr>isIterated := True\<rparr>) None)
     [(''age'', ''37'')] =
     \<lparr>warnings = [], returned = Inr ''You are undefined!'',
      processorAfter = singleProcessor ((exampleExpr ''age'' 8 15)\<lparr>isIterated := True\<rparr>) None\<rparr>"
  using run_iterated_without_declared_iteration
          [of "(exampleExpr ''age'' 8 15)\<lparr>isIterated := True\<rparr>"
              "singleProcessor ((exampleExpr ''age'' 8 15)\<lparr>isIterated := True\<rparr>) None"
              "[(''age'', ''37'')]" "[]" "[]" exampleGrammar]
  by (simp add: example_defs map_size_def replaceRange_def)

subsection \<open>The guards and the container\<close>

text \<open>
  C4. If the container's skip flag is set, \<open>run\<close> returns \<open>fileContents\<close> unchanged,
  whatever the map and the invalid flag; otherwise, if the invalid flag is set, it throws
  the configuration error; otherwise, if the map is empty, it throws the input error. In
  both throwing cases no string is returned, nothing is logged and the processor is as
  before: no substitution is performed.
\<close>

theorem run_guard_cascade:
  "(skip (atmplContainer p) \<longrightarrow>
      run g p m =
        \<lparr>warnings = [], returned = Inr (fileContents (atmplContainer p)), processorAfter = p\<rparr>)
   \<and> (\<not> skip (atmplContainer p) \<and> invalid (atmplContainer p) \<longrightarrow>
        run g p m = \<lparr>warnings = [], returned = Inl TmplInvalid, processorAfter = p\<rparr>)
   \<and> (\<not> skip (atmplContainer p) \<and> \<not> invalid (atmplContainer p) \<and> map_size m = 0 \<longrightarrow>
        run g p m = \<lparr>warnings = [], returned = Inl EmptyMap, processorAfter = p\<rparr>)"
  by (simp add: run_def)

theorem run_guard_cascade_witness:
  "returned (run exampleGrammar (guardedProcessor True True) []) =
     Inr ''Hello ::name::, you are ::age::!''
   \<and> returned (run exampleGrammar (guardedProcessor False True) []) = Inl TmplInvalid
   \<and> returned (run exampleGrammar (guardedProcessor False False) []) = Inl EmptyMap"
  using run_guard_cascade [of "guardedProcessor True True" exampleGrammar "[]"]
        run_guard_cascade [of "guardedProcessor False True" exampleGrammar "[]"]
        run_guard_cascade [of "guardedProcessor False False" exampleGrammar "[]"]
  by (simp add: example_defs map_size_def)

text \<open>
  A run of the greeting template performs two substitutions that change the length of the
  text, and the container's \<open>fileContents\<close> is afterwards still the original text.
\<close>

theorem run_container_counterexample:
  "returned (run exampleGrammar exampleProcessor [(''name'', ''Ada''), (''age'', ''37'')])
     = Inr ''Hello Ada, you are 37!''
   \<and> fileContents (atmplContainer (processorAfter
        (run exampleGrammar exampleProcessor [(''name'', ''Ada''), (''age'', ''37'')])))
     = ''Hello ::name::, you are ::age::!''"
  by (simp add: run_def run_body_def replaceRange_def map_size_def example_defs)

text \<open>
  C5, as the code has it. \<open>run\<close> works on a local copy of the text: after any call the
  processor and its container, \<open>fileContents\<close> included, are what they were before, so a
  second run from the same container needs neither re-parsing nor cloning and returns
  what it would have returned on the fresh container.
\<close>

theorem run_leaves_container:
  "processorAfter (run g p m) = p
   \<and> fileContents (atmplContainer (processorAfter (run g p m)))
       = fileContents (atmplContainer p)
   \<and> run g (processorAfter (run g p m)) m' = run g p m'"
  by (simp add: run_processorAfter)

theorem run_leaves_container_witness:
  "fileContents (atmplContainer (processorAfter
     (run exampleGrammar exampleProcessor [(''name'', ''Ada''), (''age'', ''37'')])))
   = ''Hello ::name::, you are ::age::!''"
  using run_leaves_container [of exampleGrammar exampleProcessor
          "[(''name'', ''Ada''), (''age'', ''37'')]" "[]"]
  by (simp add: example_defs)

subsection \<open>Boolean evaluation\<close>

text \<open>
  For the negated expression \<open>!flag\<close> and a map in which \<open>flag\<close> is present with the empty
  string as its value, \<open>evaluateBoolean\<close> returns false, where the inverted comparison
  with "true" and "1" is true.
\<close>

theorem evaluateBoolean_counterexample:
  "execMappedExpression exampleGrammar ''!flag'' =
     Some (5, (exampleExpr ''flag'' 0 5)\<lparr>isNegated := True\<rparr>)
   \<and> map_of [(''flag'', '''')] ''flag'' = Some ''''
   \<and> evaluateBoolean exampleGrammar ''!flag'' [(''flag'', '''')] = Inr False
   \<and> claimedBoolean ((exampleExpr ''flag'' 0 5)\<lparr>isNegated := True\<rparr>) [(''flag'', '''')] = True"
  by (simp add: evaluateBoolean_def claimedBoolean_def toLowerCase_def example_defs)

text \<open>
  C3, as the code has it. For an expression string from which the grammar parses a record
  with key \<open>K\<close> and negation flag \<open>n\<close>, \<open>evaluateBoolean\<close> returns true iff the value at
  \<open>K\<close> is not the empty string and equals "true" or "1" whatever the case, inverted when
  \<open>n\<close> is set; for a value that is the empty string, and for an absent \<open>K\<close>, it returns
  false whatever \<open>n\<close>. It throws the input error when the grammar finds no match.
\<close>

theorem evaluateBoolean_contract:
  assumes "execMappedExpression g s = Some (lastIndex, e)" and "lastIndex \<noteq> 0"
  shows "evaluateBoolean g s m =
           Inr (claimedBoolean e m \<and> map_of m (mappedKey e) \<noteq> Some '''')
         \<and> (map_of m (mappedKey e) = None \<longrightarrow> evaluateBoolean g s m = Inr False)
         \<and> (execMappedExpression g s' = None \<longrightarrow>
              evaluateBoolean g s' m = Inl (InvalidExpression s'))"
  using assms
  by (auto simp add: evaluateBoolean_def claimedBoolean_def split: option.splits)

theorem evaluateBoolean_contract_witness:
  "evaluateBoolean exampleGrammar ''flag'' [(''flag'', ''TRUE'')] = Inr True
   \<and> evaluateBoolean exampleGrammar ''!flag'' [(''flag'', ''TRUE'')] = Inr False
   \<and> evaluateBoolean exampleGrammar ''!flag'' [(''other'', ''1'')] = Inr False
   \<and> evaluateBoolean exampleGrammar ''#'' [(''flag'', ''1'')] = Inl (InvalidExpression ''#'')"
  using evaluateBoolean_contract [of exampleGrammar "''flag''" 4 "exampleExpr ''flag'' 0 4"
          "[(''flag'', ''TRUE'')]" "''#''"]
        evaluateBoolean_contract [of exampleGrammar "''!flag''" 5
          "(exampleExpr ''flag'' 0 5)\<lparr>isNegated := True\<rparr>" "[(''flag'', ''TRUE'')]" "''#''"]
        evaluateBoolean_contract [of exampleGrammar "''!flag''" 5
          "(exampleExpr ''flag'' 0 5)\<lparr>isNegated := True\<rparr>" "[(''other'', ''1'')]" "''#''"]
        evaluateBoolean_contract [of exampleGrammar "''flag''" 4 "exampleExpr ''flag'' 0 4"
          "[(''flag'', ''1'')]" "''#''"]
  by (simp add: example_defs claimedBoolean_def toLowerCase_def toLowerChar_def)

end
